theory Spec2Isabelle
  imports Complex_Main
begin

section \<open>Python strings\<close>

text \<open>
  A Python 3 \<open>str\<close> is a sequence of Unicode code points, and \<open>sys.argv\<close> holds such
  strings. A character is therefore modelled by its code point, a natural number, and a
  string by a list of code points. \<open>str_lit\<close> reads an ASCII literal of the source.
\<close>

type_synonym pystr = "nat list"

definition ord :: "char \<Rightarrow> nat" where
  "ord ch = of_char ch"

definition str_lit :: "string \<Rightarrow> pystr" where
  "str_lit s = map ord s"

text \<open>
  \<open>str.upper()\<close> on a one-character string. Python applies the Unicode upper-case mapping:
  the ASCII letters \<open>a\<close>..\<open>z\<close> go to \<open>A\<close>..\<open>Z\<close>, and exactly two code points outside
  ASCII have an ASCII upper case: U+0131 (dotless i) goes to \<open>I\<close> and U+017F (long s) goes
  to \<open>S\<close>. For every other code point Python's result is the character itself, another
  non-ASCII character, or a longer string (\<open>SS\<close> for U+00DF); none of these equals \<open>' '\<close>
  or is a key of \<open>MORSE_CODE\<close>, whose keys are single ASCII characters. The model keeps
  such a code point unchanged, which the two tests of \<open>send_character\<close> cannot tell from
  Python's result.
\<close>

definition upper :: "nat \<Rightarrow> nat" where
  "upper c =
     (if ord CHR ''a'' \<le> c \<and> c \<le> ord CHR ''z'' then c - 32
      else if c = 0x131 then ord CHR ''I''
      else if c = 0x17F then ord CHR ''S''
      else c)"

text \<open>\<open>str(n)\<close> for an integer: its decimal numeral.\<close>

fun digits :: "nat \<Rightarrow> pystr" where
  "digits n = (if n < 10 then [ord CHR ''0'' + n] else digits (n div 10) @ [ord CHR ''0'' + n mod 10])"

definition str_int :: "int \<Rightarrow> pystr" where
  "str_int i = (if i < 0 then ord CHR ''-'' # digits (nat (- i)) else digits (nat i))"


section \<open>Configuration\<close>

definition LED_PIN :: nat where
  "LED_PIN = 17"

text \<open>
  The timing constants, in seconds. The source fixes \<open>DOT = 0.1\<close> and derives the others
  from it; they are modelled as functions of the configured dot duration, and durations
  are exact rationals (the rounding of Python's binary floats is not modelled).
  \<open>time.sleep\<close> rejects a negative duration; for \<open>0 < dot\<close> every duration the program
  sleeps is positive, and the theorems about sending assume it.
\<close>

definition DOT :: rat where
  "DOT = 1 / 10"

definition DASH :: "rat \<Rightarrow> rat" where
  "DASH dot = dot * 3"

definition SYMBOL_SPACE :: "rat \<Rightarrow> rat" where
  "SYMBOL_SPACE dot = dot"

definition LETTER_SPACE :: "rat \<Rightarrow> rat" where
  "LETTER_SPACE dot = dot * 3"

definition WORD_SPACE :: "rat \<Rightarrow> rat" where
  "WORD_SPACE dot = dot * 7"

text \<open>The Morse code dictionary, in the order of the source.\<close>

definition MORSE_CODE_items :: "(nat \<times> pystr) list" where
  "MORSE_CODE_items =
    [(ord CHR ''A'', str_lit ''.-''),    (ord CHR ''B'', str_lit ''-...''),
     (ord CHR ''C'', str_lit ''-.-.''),  (ord CHR ''D'', str_lit ''-..''),
     (ord CHR ''E'', str_lit ''.''),     (ord CHR ''F'', str_lit ''..-.''),
     (ord CHR ''G'', str_lit ''--.''),   (ord CHR ''H'', str_lit ''....''),
     (ord CHR ''I'', str_lit ''..''),    (ord CHR ''J'', str_lit ''.---''),
     (ord CHR ''K'', str_lit ''-.-''),   (ord CHR ''L'', str_lit ''.-..''),
     (ord CHR ''M'', str_lit ''--''),    (ord CHR ''N'', str_lit ''-.''),
     (ord CHR ''O'', str_lit ''---''),   (ord CHR ''P'', str_lit ''.--.''),
     (ord CHR ''Q'', str_lit ''--.-''),  (ord CHR ''R'', str_lit ''.-.''),
     (ord CHR ''S'', str_lit ''...''),   (ord CHR ''T'', str_lit ''-''),
     (ord CHR ''U'', str_lit ''..-''),   (ord CHR ''V'', str_lit ''...-''),
     (ord CHR ''W'', str_lit ''.--''),   (ord CHR ''X'', str_lit ''-..-''),
     (ord CHR ''Y'', str_lit ''-.--''),  (ord CHR ''Z'', str_lit ''--..''),
     (ord CHR ''0'', str_lit ''-----''), (ord CHR ''1'', str_lit ''.----''),
     (ord CHR ''2'', str_lit ''..---''), (ord CHR ''3'', str_lit ''...--''),
     (ord CHR ''4'', str_lit ''....-''), (ord CHR ''5'', str_lit ''.....''),
     (ord CHR ''6'', str_lit ''-....''), (ord CHR ''7'', str_lit ''--...''),
     (ord CHR ''8'', str_lit ''---..''), (ord CHR ''9'', str_lit ''----.''),
     (ord CHR '' '', str_lit ''/'')]"

definition MORSE_CODE :: "nat \<rightharpoonup> pystr" where
  "MORSE_CODE = map_of MORSE_CODE_items"


section \<open>Effects\<close>

text \<open>
  The program acts on the world through the GPIO driver, \<open>time.sleep\<close> and standard
  output. Each function is modelled by the sequence of effects it performs, in order.
  \<open>Print\<close> carries the exact text written, with the line end. A call of the driver is
  recorded as an effect; a failure inside the driver is outside the model.
\<close>

datatype level = LOW | HIGH

datatype event =
    GPIO_setmode_BCM
  | GPIO_setwarnings bool
  | GPIO_setup_OUT nat
  | GPIO_output nat level
  | GPIO_cleanup
  | Sleep rat
  | Print pystr

definition setup_gpio :: "event list" where
  "setup_gpio =
     [GPIO_setmode_BCM, GPIO_setwarnings False, GPIO_setup_OUT LED_PIN, GPIO_output LED_PIN LOW]"

definition cleanup_gpio :: "event list" where
  "cleanup_gpio = [GPIO_output LED_PIN LOW, GPIO_cleanup]"

definition send_dot :: "rat \<Rightarrow> event list" where
  "send_dot dot =
     [GPIO_output LED_PIN HIGH, Sleep dot, GPIO_output LED_PIN LOW, Sleep (SYMBOL_SPACE dot)]"

definition send_dash :: "rat \<Rightarrow> event list" where
  "send_dash dot =
     [GPIO_output LED_PIN HIGH, Sleep (DASH dot), GPIO_output LED_PIN LOW, Sleep (SYMBOL_SPACE dot)]"

text \<open>One round of the symbol loop of \<open>send_character\<close>.\<close>

definition send_symbol :: "rat \<Rightarrow> nat \<Rightarrow> event list" where
  "send_symbol dot symbol =
     (if symbol = ord CHR ''.'' then send_dot dot
      else if symbol = ord CHR ''-'' then send_dash dot
      else [])"

definition send_character :: "rat \<Rightarrow> nat \<Rightarrow> event list" where
  "send_character dot c =
     (let char = upper c in
      if char = ord CHR '' '' then [Sleep (WORD_SPACE dot - LETTER_SPACE dot)]
      else case MORSE_CODE char of
        None \<Rightarrow> []
      | Some morse \<Rightarrow>
          [Print (morse @ str_lit '' '')]
          @ concat (map (send_symbol dot) morse)
          @ [Sleep (LETTER_SPACE dot - SYMBOL_SPACE dot)])"

definition send_message :: "rat \<Rightarrow> pystr \<Rightarrow> event list" where
  "send_message dot message =
     concat (map (send_character dot) message) @ [Print [10]]"


text \<open>
  The program itself. \<open>argv\<close> is \<open>sys.argv\<close>. The built-in \<open>int()\<close> is a parameter
  \<open>int_py\<close>, giving \<open>None\<close> where Python raises \<open>ValueError\<close>. The result is the exit
  code of the process (\<open>sys.exit(1)\<close>, or \<open>0\<close> when \<open>main\<close> returns) with the effects
  performed.

  A \<open>KeyboardInterrupt\<close> may arrive at any moment inside the \<open>try\<close> block, which holds
  no handler of its own below \<open>main\<close>: \<open>intr = Some k\<close> says that it is raised when \<open>k\<close>
  effects of the block are complete, so that the block performs the first \<open>k\<close> of its
  effects, the \<open>except\<close> clause prints its notice, and the \<open>finally\<close> clause runs.
  With \<open>intr = None\<close>, or \<open>k\<close> beyond the end of the block, the block runs to its end.
\<close>

definition try_body :: "rat \<Rightarrow> int \<Rightarrow> pystr \<Rightarrow> event list" where
  "try_body dot repetitions message =
     setup_gpio
     @ concat (replicate (nat repetitions) (send_message dot message))
     @ [Print (str_lit ''Transmission complete!'' @ [10])]"

definition interrupted :: "nat option \<Rightarrow> event list \<Rightarrow> event list" where
  "interrupted intr body =
     (case intr of
        None \<Rightarrow> body
      | Some k \<Rightarrow>
          if k \<le> length body
          then take k body @ [Print ([10] @ str_lit ''Transmission interrupted by user'' @ [10])]
          else body)"

definition main :: "(pystr \<Rightarrow> int option) \<Rightarrow> rat \<Rightarrow> pystr list \<Rightarrow> nat option \<Rightarrow> int \<times> event list" where
  "main int_py dot argv intr =
     (if length argv < 3 then
        (1, [Print (str_lit ''Usage: python3 send.py <repetitions> <message>'' @ [10]),
             Print (str_lit ''Example: python3 send.py 4 '' @ [34] @ str_lit ''hello ESP32'' @ [34] @ [10])])
      else case int_py (argv ! 1) of
        None \<Rightarrow> (1, [Print (str_lit ''Error: First argument must be a number'' @ [10])])
      | Some repetitions \<Rightarrow>
          let message = argv ! 2 in
          if repetitions < 1 then
            (1, [Print (str_lit ''Error: Number of repetitions must be at least 1'' @ [10])])
          else
            (0, [Print (str_lit ''Sending message '' @ [39] @ message @ [39] @ str_lit '' ''
                        @ str_int repetitions @ str_lit '' time(s)'' @ [10]),
                 Print (str_lit ''Morse code pattern:'' @ [10])]
                @ interrupted intr (try_body dot repetitions message)
                @ cleanup_gpio))"


section \<open>Observations on a sequence of effects\<close>

text \<open>The level of the LED pin after a sequence of effects, from a given level.\<close>

fun pin_level :: "level \<Rightarrow> event list \<Rightarrow> level" where
  "pin_level l [] = l"
| "pin_level l (GPIO_output p v # es) = pin_level (if p = LED_PIN then v else l) es"
| "pin_level l (e # es) = pin_level l es"

text \<open>
  The timing of the line. While reading the effects the line is \<open>Idle\<close> (low, no pulse
  sent so far), \<open>On t\<close> (high for \<open>t\<close> seconds) or \<open>Off t\<close> (low for \<open>t\<close> seconds since the
  end of the last pulse). \<open>timeline_from\<close> lists, in order, every completed pulse
  \<open>(HIGH, t)\<close>, from its rising to its falling edge, and every silent interval \<open>(LOW, t)\<close>
  between two pulses, from the falling edge of one to the rising edge of the next, each
  with its duration: the sum of the sleeps in between. The silence before the first pulse
  and the stretch after the last edge are not listed.
\<close>

datatype line = Idle | On rat | Off rat

fun rise :: "line \<Rightarrow> line" where
  "rise (On t) = On t"
| "rise l = On 0"

fun fall :: "line \<Rightarrow> line" where
  "fall (On t) = Off 0"
| "fall l = l"

fun wait :: "rat \<Rightarrow> line \<Rightarrow> line" where
  "wait d Idle = Idle"
| "wait d (On t) = On (t + d)"
| "wait d (Off t) = Off (t + d)"

fun timeline_from :: "line \<Rightarrow> event list \<Rightarrow> (level \<times> rat) list" where
  "timeline_from l [] = []"
| "timeline_from l (GPIO_output p v # es) =
     (if p \<noteq> LED_PIN then timeline_from l es
      else case v of
        HIGH \<Rightarrow> (case l of Off t \<Rightarrow> [(LOW, t)] | _ \<Rightarrow> []) @ timeline_from (rise l) es
      | LOW \<Rightarrow> (case l of On t \<Rightarrow> [(HIGH, t)] | _ \<Rightarrow> []) @ timeline_from (fall l) es)"
| "timeline_from l (Sleep d # es) = timeline_from (wait d l) es"
| "timeline_from l (e # es) = timeline_from l es"

definition timeline :: "event list \<Rightarrow> (level \<times> rat) list" where
  "timeline es = timeline_from Idle es"

definition pulses :: "event list \<Rightarrow> rat list" where
  "pulses es = map snd (filter (\<lambda>s. fst s = HIGH) (timeline es))"

definition silences :: "event list \<Rightarrow> rat list" where
  "silences es = map snd (filter (\<lambda>s. fst s = LOW) (timeline es))"

text \<open>
  The silence a line state carries into what follows: the line is low since the end of
  a pulse.
\<close>

fun low :: "line \<Rightarrow> bool" where
  "low (On t) = False"
| "low l = True"

fun gap :: "line \<Rightarrow> (level \<times> rat) list" where
  "gap (Off t) = [(LOW, t)]"
| "gap l = []"

text \<open>
  The line is high only while a pulse is held: every rising edge of a sequence of effects
  is followed at once by one sleep and then by the falling edge, with nothing in between,
  and the sequence ends on a low line. \<open>Raised\<close> is the line just after a rising edge,
  \<open>Held\<close> after the sleep that follows it, \<open>Lowered\<close> otherwise.
\<close>

datatype phase = Lowered | Raised | Held

fun closed_from :: "phase \<Rightarrow> event list \<Rightarrow> bool" where
  "closed_from ph [] = (ph = Lowered)"
| "closed_from ph (GPIO_output p v # es) =
     (p = LED_PIN \<and>
      (case v of
         HIGH \<Rightarrow> ph = Lowered \<and> closed_from Raised es
       | LOW \<Rightarrow> ph \<noteq> Raised \<and> closed_from Lowered es))"
| "closed_from ph (Sleep d # es) =
     (case ph of
        Lowered \<Rightarrow> closed_from Lowered es
      | Raised \<Rightarrow> closed_from Held es
      | Held \<Rightarrow> False)"
| "closed_from ph (e # es) = (ph = Lowered \<and> closed_from Lowered es)"

definition pulses_closed :: "event list \<Rightarrow> bool" where
  "pulses_closed es = closed_from Lowered es"

text \<open>The text written to standard output, and the calls of the GPIO driver.\<close>

fun stdout :: "event list \<Rightarrow> pystr" where
  "stdout [] = []"
| "stdout (Print s # es) = s @ stdout es"
| "stdout (e # es) = stdout es"

fun is_gpio :: "event \<Rightarrow> bool" where
  "is_gpio (Sleep d) = False"
| "is_gpio (Print s) = False"
| "is_gpio e = True"


fun is_deassert :: "event \<Rightarrow> bool" where
  "is_deassert (GPIO_output p v) = (p = LED_PIN \<and> v = LOW)"
| "is_deassert e = False"


section \<open>The vocabulary of the specification\<close>

text \<open>
  The supported characters of the specification: the letters in both cases, the digits
  and the space; the letters and digits are the ones that have a code of dots and dashes.
\<close>

definition is_letter_or_digit :: "nat \<Rightarrow> bool" where
  "is_letter_or_digit c \<longleftrightarrow>
     (ord CHR ''A'' \<le> c \<and> c \<le> ord CHR ''Z'') \<or>
     (ord CHR ''a'' \<le> c \<and> c \<le> ord CHR ''z'') \<or>
     (ord CHR ''0'' \<le> c \<and> c \<le> ord CHR ''9'')"

definition supported :: "nat \<Rightarrow> bool" where
  "supported c \<longleftrightarrow> is_letter_or_digit c \<or> c = ord CHR '' ''"

text \<open>\<open>str.lower()\<close> on a supported character: only the ASCII capitals change.\<close>

definition lower :: "nat \<Rightarrow> nat" where
  "lower c = (if ord CHR ''A'' \<le> c \<and> c \<le> ord CHR ''Z'' then c + 32 else c)"

text \<open>The code that \<open>send_character\<close> looks up for a character, empty when it has none.\<close>

definition morse_of :: "nat \<Rightarrow> pystr" where
  "morse_of c = (case MORSE_CODE (upper c) of None \<Rightarrow> [] | Some morse \<Rightarrow> morse)"

text \<open>
  The signal that the specification asks for a code: a pulse of one unit for a dot and of
  three for a dash, and one symbol gap between two pulses.
\<close>

definition pulse :: "rat \<Rightarrow> nat \<Rightarrow> rat" where
  "pulse dot symbol = (if symbol = ord CHR ''.'' then dot else 3 * dot)"

fun signal :: "rat \<Rightarrow> pystr \<Rightarrow> (level \<times> rat) list" where
  "signal dot [] = []"
| "signal dot [s] = [(HIGH, pulse dot s)]"
| "signal dot (s # m) = (HIGH, pulse dot s) # (LOW, dot) # signal dot m"

text \<open>
  A reader of plain decimal numerals, an optional sign and ASCII digits, on which it
  agrees with Python's \<open>int()\<close>; it serves as the \<open>int_py\<close> of concrete runs.
\<close>

fun nat_of_digits :: "nat \<Rightarrow> pystr \<Rightarrow> nat option" where
  "nat_of_digits acc [] = Some acc"
| "nat_of_digits acc (d # ds) =
     (if ord CHR ''0'' \<le> d \<and> d \<le> ord CHR ''9''
      then nat_of_digits (acc * 10 + (d - ord CHR ''0'')) ds
      else None)"

definition int_decimal :: "pystr \<Rightarrow> int option" where
  "int_decimal s =
     (case s of
        [] \<Rightarrow> None
      | c # ds \<Rightarrow>
          if c = ord CHR ''-'' then
            (if ds = [] then None else map_option (\<lambda>n. - int n) (nat_of_digits 0 ds))
          else if c = ord CHR ''+'' then
            (if ds = [] then None else map_option int (nat_of_digits 0 ds))
          else map_option int (nat_of_digits 0 s))"

section \<open>Characters and the dictionary\<close>

lemma ord_values:
  "ord CHR ''A'' = 65" "ord CHR ''Z'' = 90" "ord CHR ''a'' = 97" "ord CHR ''z'' = 122"
  "ord CHR ''0'' = 48" "ord CHR ''9'' = 57" "ord CHR '' '' = 32" "ord CHR ''.'' = 46"
  "ord CHR ''-'' = 45" "ord CHR ''/'' = 47" "ord CHR ''I'' = 73" "ord CHR ''S'' = 83"
  "ord CHR ''+'' = 43"
  by (simp_all add: ord_def)

lemmas table = MORSE_CODE_def MORSE_CODE_items_def ord_def str_lit_def

lemma MORSE_CODE_Some:
  assumes "MORSE_CODE k = Some m" and "k \<noteq> 32"
  shows "m \<noteq> [] \<and> set m \<subseteq> {46, 45}"
  using assms by (auto simp: table split: if_splits)

lemma MORSE_CODE_keys:
  assumes "MORSE_CODE k = Some m"
  shows "(65 \<le> k \<and> k \<le> 90) \<or> (48 \<le> k \<and> k \<le> 57) \<or> k = 32"
  using assms by (auto simp: table split: if_splits)

lemma capital_keys:
  assumes "65 \<le> k \<and> k \<le> 90"
  shows "MORSE_CODE k \<noteq> None"
proof -
  from assms have "k \<in> {65..<91}" by simp
  then have "k \<in> set [65..<91]" by (simp only: set_upt)
  then show ?thesis by (auto simp: table)
qed

lemma digit_keys:
  assumes "48 \<le> k \<and> k \<le> 57"
  shows "MORSE_CODE k \<noteq> None"
proof -
  from assms have "k \<in> {48..<58}" by simp
  then have "k \<in> set [48..<58]" by (simp only: set_upt)
  then show ?thesis by (auto simp: table)
qed

lemma upper_letter_or_digit:
  assumes "is_letter_or_digit c"
  shows "(65 \<le> upper c \<and> upper c \<le> 90) \<or> (48 \<le> upper c \<and> upper c \<le> 57)"
  using assms by (auto simp: is_letter_or_digit_def upper_def ord_values)

lemma letter_code:
  assumes "is_letter_or_digit c"
  shows "MORSE_CODE (upper c) = Some (morse_of c) \<and> upper c \<noteq> 32
         \<and> morse_of c \<noteq> [] \<and> set (morse_of c) \<subseteq> {46, 45}"
proof -
  from upper_letter_or_digit [OF assms]
  have key: "MORSE_CODE (upper c) \<noteq> None" and ns: "upper c \<noteq> 32"
    using capital_keys digit_keys by auto
  then obtain m where m: "MORSE_CODE (upper c) = Some m" by auto
  then have "morse_of c = m" by (simp add: morse_of_def)
  with m ns MORSE_CODE_Some show ?thesis by blast
qed

lemma send_character_letter:
  assumes "is_letter_or_digit c"
  shows "send_character dot c =
         Print (morse_of c @ [32]) # concat (map (send_symbol dot) (morse_of c))
         @ [Sleep (LETTER_SPACE dot - SYMBOL_SPACE dot)]"
  using letter_code [OF assms]
  by (simp add: send_character_def ord_values str_lit_def ord_def)

lemma send_character_space:
  "send_character dot 32 = [Sleep (WORD_SPACE dot - LETTER_SPACE dot)]"
  by (simp add: send_character_def upper_def ord_values)


section \<open>The signal of a character\<close>

lemma timeline_send_symbol:
  assumes "low l" and "s = 46 \<or> s = 45"
  shows "timeline_from l (send_symbol dot s @ rest) =
         gap l @ (HIGH, pulse dot s) # timeline_from (Off (SYMBOL_SPACE dot)) rest"
  using assms
  by (cases l)
    (auto simp: send_symbol_def send_dot_def send_dash_def ord_values pulse_def DASH_def)

lemma signal_Cons:
  assumes "m \<noteq> []"
  shows "signal dot (s # m) = (HIGH, pulse dot s) # (LOW, dot) # signal dot m"
  using assms by (cases m) simp_all

lemma timeline_symbols:
  assumes "low l" and "set m \<subseteq> {46, 45}" and "m \<noteq> []"
  shows "timeline_from l (concat (map (send_symbol dot) m) @ rest) =
         gap l @ signal dot m @ timeline_from (Off (SYMBOL_SPACE dot)) rest"
  using assms
proof (induction m arbitrary: l)
  case Nil
  then show ?case by simp
next
  case (Cons s m)
  then have s: "s = 46 \<or> s = 45" by auto
  show ?case
  proof (cases "m = []")
    case True
    with s Cons.prems(1) show ?thesis by (simp add: timeline_send_symbol)
  next
    case False
    with Cons have
      "timeline_from (Off (SYMBOL_SPACE dot)) (concat (map (send_symbol dot) m) @ rest) =
       (LOW, dot) # signal dot m @ timeline_from (Off (SYMBOL_SPACE dot)) rest"
      by (simp add: SYMBOL_SPACE_def)
    with s Cons.prems(1) False show ?thesis
      by (simp add: timeline_send_symbol signal_Cons)
  qed
qed

lemma timeline_send_character:
  assumes "low l" and "is_letter_or_digit c"
  shows "timeline_from l (send_character dot c @ rest) =
         gap l @ signal dot (morse_of c) @ timeline_from (Off (LETTER_SPACE dot)) rest"
proof -
  have "SYMBOL_SPACE dot + (LETTER_SPACE dot - SYMBOL_SPACE dot) = LETTER_SPACE dot"
    by simp
  with letter_code [OF assms(2)] assms(1) show ?thesis
    by (simp add: send_character_letter [OF assms(2)] timeline_symbols)
qed

lemma timeline_send_space:
  "timeline_from (Off t) (send_character dot 32 @ rest) =
   timeline_from (Off (t + (WORD_SPACE dot - LETTER_SPACE dot))) rest"
  by (simp add: send_character_space)

lemma signal_Nil: "signal dot m = [] \<longleftrightarrow> m = []"
  by (induction dot m rule: signal.induct) auto

lemma signal_ends:
  assumes "m \<noteq> []"
  shows "fst (hd (signal dot m)) = HIGH \<and> fst (last (signal dot m)) = HIGH"
  using assms by (induction dot m rule: signal.induct) (auto simp: signal_Nil)


section \<open>Gaps between letters and between words\<close>

text \<open>
  C1. Two consecutive letters or digits \<open>c1\<close> and \<open>c2\<close>, anywhere in a message: whatever
  silence \<open>l\<close> the line carries when \<open>c1\<close> starts and whatever effects \<open>rest\<close> follow
  \<open>c2\<close>, the line shows the signal of the code of \<open>c1\<close>, then one silent interval of
  exactly \<open>LETTER_SPACE\<close>, three units, then the signal of the code of \<open>c2\<close>. Both
  signals are non-empty and begin and end with a pulse, so the interval runs from the end
  of the last pulse of \<open>c1\<close> to the start of the first pulse of \<open>c2\<close>: the symbol gap
  after the last symbol and the \<open>LETTER_SPACE - SYMBOL_SPACE\<close> after the loop add up to
  \<open>LETTER_SPACE\<close>, not to \<open>LETTER_SPACE + SYMBOL_SPACE\<close>.
\<close>

theorem letter_gap_exact:
  assumes "0 < dot" and "low l" and "is_letter_or_digit c1" and "is_letter_or_digit c2"
  shows "timeline_from l (send_character dot c1 @ send_character dot c2 @ rest) =
           gap l @ signal dot (morse_of c1) @ [(LOW, LETTER_SPACE dot)]
           @ signal dot (morse_of c2) @ timeline_from (Off (LETTER_SPACE dot)) rest
         \<and> LETTER_SPACE dot = 3 * dot
         \<and> fst (last (signal dot (morse_of c1))) = HIGH
         \<and> fst (hd (signal dot (morse_of c2))) = HIGH"
proof -
  have "timeline_from l (send_character dot c1 @ send_character dot c2 @ rest) =
        gap l @ signal dot (morse_of c1) @ [(LOW, LETTER_SPACE dot)]
        @ signal dot (morse_of c2) @ timeline_from (Off (LETTER_SPACE dot)) rest"
    using assms by (simp add: timeline_send_character)
  moreover have "LETTER_SPACE dot = 3 * dot"
    by (simp add: LETTER_SPACE_def)
  moreover have "fst (last (signal dot (morse_of c1))) = HIGH"
    using letter_code [OF assms(3)] signal_ends by blast
  moreover have "fst (hd (signal dot (morse_of c2))) = HIGH"
    using letter_code [OF assms(4)] signal_ends by blast
  ultimately show ?thesis by blast
qed

theorem letter_gap_exact_witness:
  "(0::rat) < DOT \<and> low Idle \<and> is_letter_or_digit 83 \<and> is_letter_or_digit 111 \<and>
   timeline (send_character DOT 83 @ send_character DOT 111) =
     [(HIGH, 1/10), (LOW, 1/10), (HIGH, 1/10), (LOW, 1/10), (HIGH, 1/10),
      (LOW, 3/10),
      (HIGH, 3/10), (LOW, 1/10), (HIGH, 3/10), (LOW, 1/10), (HIGH, 3/10)]"
proof -
  have h: "(0::rat) < DOT" "low Idle" "is_letter_or_digit 83" "is_letter_or_digit 111"
    by (simp_all add: DOT_def is_letter_or_digit_def ord_values)
  have m: "morse_of 83 = [46, 46, 46]" "morse_of 111 = [45, 45, 45]"
    by (simp_all add: morse_of_def upper_def table)
  from letter_gap_exact [OF h, of "[]"] h m show ?thesis
    by (simp add: timeline_def pulse_def ord_values LETTER_SPACE_def DOT_def)
qed

text \<open>
  C2, as it holds. A single space between two letters or digits \<open>c1\<close> and \<open>c2\<close>: the line
  shows the signal of \<open>c1\<close>, one silent interval of exactly \<open>WORD_SPACE\<close>, seven units,
  and the signal of \<open>c2\<close>; the space itself calls the GPIO driver not at all. The space
  adds \<open>WORD_SPACE - LETTER_SPACE\<close> to the \<open>LETTER_SPACE\<close> that follows \<open>c1\<close>.
\<close>

theorem word_gap_exact:
  assumes "0 < dot" and "low l" and "is_letter_or_digit c1" and "is_letter_or_digit c2"
  shows "timeline_from l
           (send_character dot c1 @ send_character dot (ord CHR '' '')
            @ send_character dot c2 @ rest) =
           gap l @ signal dot (morse_of c1) @ [(LOW, WORD_SPACE dot)]
           @ signal dot (morse_of c2) @ timeline_from (Off (LETTER_SPACE dot)) rest
         \<and> WORD_SPACE dot = 7 * dot
         \<and> filter is_gpio (send_character dot (ord CHR '' '')) = []
         \<and> fst (last (signal dot (morse_of c1))) = HIGH
         \<and> fst (hd (signal dot (morse_of c2))) = HIGH"
proof -
  let ?L = "LETTER_SPACE dot" and ?W = "WORD_SPACE dot"
  have "timeline_from (Off ?L) (send_character dot 32 @ send_character dot c2 @ rest) =
        timeline_from (Off (?L + (?W - ?L))) (send_character dot c2 @ rest)"
    by (rule timeline_send_space)
  also have "?L + (?W - ?L) = ?W" by simp
  also have "timeline_from (Off ?W) (send_character dot c2 @ rest) =
        (LOW, ?W) # signal dot (morse_of c2) @ timeline_from (Off ?L) rest"
    using assms(4) by (simp add: timeline_send_character)
  finally have
    "timeline_from l (send_character dot c1 @ send_character dot 32
       @ send_character dot c2 @ rest) =
     gap l @ signal dot (morse_of c1) @ [(LOW, ?W)]
     @ signal dot (morse_of c2) @ timeline_from (Off ?L) rest"
    using assms(2,3) by (simp add: timeline_send_character)
  moreover have "?W = 7 * dot"
    by (simp add: WORD_SPACE_def)
  moreover have "filter is_gpio (send_character dot 32) = []"
    by (simp add: send_character_space)
  moreover have "fst (last (signal dot (morse_of c1))) = HIGH"
    using letter_code [OF assms(3)] signal_ends by blast
  moreover have "fst (hd (signal dot (morse_of c2))) = HIGH"
    using letter_code [OF assms(4)] signal_ends by blast
  ultimately show ?thesis by (simp add: ord_values)
qed

theorem word_gap_exact_witness:
  "(0::rat) < DOT \<and> low Idle \<and> is_letter_or_digit 97 \<and> is_letter_or_digit 66 \<and>
   timeline (send_character DOT 97 @ send_character DOT 32 @ send_character DOT 66) =
     [(HIGH, 1/10), (LOW, 1/10), (HIGH, 3/10),
      (LOW, 7/10),
      (HIGH, 3/10), (LOW, 1/10), (HIGH, 1/10), (LOW, 1/10), (HIGH, 1/10), (LOW, 1/10),
      (HIGH, 1/10)]"
proof -
  have h: "(0::rat) < DOT" "low Idle" "is_letter_or_digit 97" "is_letter_or_digit 66"
    by (simp_all add: DOT_def is_letter_or_digit_def ord_values)
  have m: "morse_of 97 = [46, 45]" "morse_of 66 = [45, 46, 46, 46]"
    by (simp_all add: morse_of_def upper_def table)
  from word_gap_exact [OF h, of "[]"] h m show ?thesis
    by (simp add: timeline_def pulse_def ord_values WORD_SPACE_def DOT_def)
qed

text \<open>
  C2, as it is stated, counts the space among the supported characters, and fails for
  a space next to another space: each space adds \<open>WORD_SPACE - LETTER_SPACE\<close>, so in
  \<open>A  B\<close> the silence between the last pulse of \<open>A\<close> and the first pulse of \<open>B\<close> is
  eleven units, not seven.
\<close>

theorem word_gap_two_spaces_counterexample:
  "supported 65 \<and> supported 32 \<and> supported 66 \<and>
   timeline (send_message DOT (str_lit ''A  B'')) =
     [(HIGH, 1/10), (LOW, 1/10), (HIGH, 3/10),
      (LOW, 11/10),
      (HIGH, 3/10), (LOW, 1/10), (HIGH, 1/10), (LOW, 1/10), (HIGH, 1/10), (LOW, 1/10),
      (HIGH, 1/10)] \<and>
   WORD_SPACE DOT = 7/10"
  by (simp add: supported_def is_letter_or_digit_def timeline_def send_message_def
      send_character_def upper_def table send_symbol_def send_dot_def send_dash_def
      LED_PIN_def DOT_def DASH_def SYMBOL_SPACE_def LETTER_SPACE_def WORD_SPACE_def)

section \<open>Timing constants\<close>

text \<open>
  C8. For any configured unit \<open>dot > 0\<close>: a dash is three dots, the symbol gap is one
  dot, the letter gap is three symbol gaps and the word gap is seven; \<open>send_dot\<close> holds
  the line high for exactly one unit and \<open>send_dash\<close> for exactly three.
\<close>

theorem timing_ratios:
  assumes "0 < dot"
  shows "DASH dot = 3 * dot \<and> SYMBOL_SPACE dot = dot
         \<and> LETTER_SPACE dot = 3 * SYMBOL_SPACE dot \<and> WORD_SPACE dot = 7 * SYMBOL_SPACE dot
         \<and> pulses (send_dot dot) = [dot] \<and> pulses (send_dash dot) = [3 * dot]"
  by (simp add: DASH_def SYMBOL_SPACE_def LETTER_SPACE_def WORD_SPACE_def
      pulses_def timeline_def send_dot_def send_dash_def)

theorem timing_ratios_witness:
  "(0::rat) < DOT \<and> DASH DOT = 3 / 10 \<and> SYMBOL_SPACE DOT = 1 / 10
   \<and> LETTER_SPACE DOT = 3 / 10 \<and> WORD_SPACE DOT = 7 / 10
   \<and> pulses (send_dot DOT) = [1 / 10] \<and> pulses (send_dash DOT) = [3 / 10]"
proof -
  have h: "(0::rat) < DOT" by (simp add: DOT_def)
  from timing_ratios [OF h] h show ?thesis by (simp add: DOT_def)
qed


section \<open>The level of the line\<close>

lemma pin_level_append: "pin_level l (a @ b) = pin_level (pin_level l a) b"
  by (induction l a rule: pin_level.induct) simp_all

lemma pin_level_send_symbol: "pin_level LOW (send_symbol dot s) = LOW"
  by (simp add: send_symbol_def send_dot_def send_dash_def)

lemma pin_level_symbols: "pin_level LOW (concat (map (send_symbol dot) m)) = LOW"
  by (induction m) (simp_all add: pin_level_append pin_level_send_symbol)

lemma pin_level_send_character: "pin_level LOW (send_character dot c) = LOW"
  by (simp add: send_character_def Let_def pin_level_append pin_level_symbols
      split: option.splits)

lemma pin_level_characters: "pin_level LOW (concat (map (send_character dot) m)) = LOW"
  by (induction m) (simp_all add: pin_level_append pin_level_send_character)

lemma pin_level_send_message: "pin_level LOW (send_message dot m) = LOW"
  by (simp add: send_message_def pin_level_append pin_level_characters)

lemma pin_level_repetitions:
  "pin_level LOW (concat (replicate n (send_message dot m))) = LOW"
  by (induction n) (simp_all add: pin_level_append pin_level_send_message)

lemma closed_from_append:
  assumes "closed_from ph a"
  shows "closed_from ph (a @ b) = closed_from Lowered b"
  using assms
  by (induction ph a rule: closed_from.induct) (auto split: level.splits phase.splits)

lemma pulses_closed_append:
  assumes "pulses_closed a"
  shows "pulses_closed (a @ b) = pulses_closed b"
  using assms by (simp add: pulses_closed_def closed_from_append)

lemma pulses_closed_send_symbol: "pulses_closed (send_symbol dot s)"
  by (simp add: pulses_closed_def send_symbol_def send_dot_def send_dash_def)

lemma pulses_closed_Nil: "pulses_closed []"
  by (simp add: pulses_closed_def)

lemma pulses_closed_single: "pulses_closed [Sleep d]" "pulses_closed [Print s]"
  by (simp_all add: pulses_closed_def)

lemma pulses_closed_symbols: "pulses_closed (concat (map (send_symbol dot) m))"
  by (induction m)
    (simp_all add: pulses_closed_Nil pulses_closed_append pulses_closed_send_symbol)

lemma pulses_closed_send_character: "pulses_closed (send_character dot c)"
proof -
  have "pulses_closed ([Print s] @ concat (map (send_symbol dot) m) @ [Sleep d])" for s m d
    by (simp only: pulses_closed_append pulses_closed_single pulses_closed_symbols)
  then show ?thesis
    by (simp add: send_character_def Let_def pulses_closed_Nil pulses_closed_single
        split: option.splits)
qed

lemma pulses_closed_characters: "pulses_closed (concat (map (send_character dot) m))"
  by (induction m)
    (simp_all add: pulses_closed_Nil pulses_closed_append pulses_closed_send_character)

lemma pulses_signal:
  "map snd (filter (\<lambda>s. fst s = HIGH) (signal dot m)) = map (pulse dot) m"
  by (induction dot m rule: signal.induct) simp_all

lemma pulses_send_character:
  assumes "is_letter_or_digit c"
  shows "pulses (send_character dot c) = map (pulse dot) (morse_of c)"
proof -
  have "timeline_from Idle (send_character dot c @ []) =
        gap Idle @ signal dot (morse_of c) @ timeline_from (Off (LETTER_SPACE dot)) []"
    using assms by (intro timeline_send_character) simp_all
  then have "timeline (send_character dot c) = signal dot (morse_of c)"
    by (simp add: timeline_def)
  then show ?thesis
    by (simp add: pulses_def pulses_signal)
qed

text \<open>
  C10. \<open>setup_gpio\<close> leaves the pin low from any level. The calls that \<open>send_dot\<close> and
  \<open>send_dash\<close> make to the driver are exactly two, the pin high and then the pin low:
  after the first effect the pin is high, the call holds one pulse, of one unit for the
  dot and three for the dash, and it returns with the pin low, from any level. A letter
  or digit sends one such pulse for every symbol of its non-empty code. Started on a low
  line, \<open>send_character\<close> and \<open>send_message\<close> end on a low line, and so does the setup
  followed by any number of messages. Within a message every rising edge is followed by
  one sleep and the falling edge, so the line is low whenever no pulse is in progress.
\<close>

theorem line_low_after_sending:
  assumes "0 < dot"
  shows "pin_level l setup_gpio = LOW
         \<and> filter is_gpio (send_dot dot) = [GPIO_output LED_PIN HIGH, GPIO_output LED_PIN LOW]
         \<and> filter is_gpio (send_dash dot) = [GPIO_output LED_PIN HIGH, GPIO_output LED_PIN LOW]
         \<and> pin_level l (take 1 (send_dot dot)) = HIGH
         \<and> pin_level l (take 1 (send_dash dot)) = HIGH
         \<and> pulses (send_dot dot) = [dot] \<and> pulses (send_dash dot) = [3 * dot]
         \<and> pin_level l (send_dot dot) = LOW \<and> pin_level l (send_dash dot) = LOW
         \<and> (is_letter_or_digit c \<longrightarrow>
              morse_of c \<noteq> [] \<and> pulses (send_character dot c) = map (pulse dot) (morse_of c))
         \<and> pin_level LOW (send_character dot c) = LOW
         \<and> pin_level LOW (send_message dot message) = LOW
         \<and> pin_level l (setup_gpio @ concat (replicate n (send_message dot message))) = LOW
         \<and> pulses_closed (send_message dot message)"
proof -
  have start: "pin_level l setup_gpio = LOW"
    by (simp add: setup_gpio_def)
  then have "pin_level l (setup_gpio @ concat (replicate n (send_message dot message))) = LOW"
    by (simp add: pin_level_append pin_level_repetitions)
  moreover have "pin_level l (send_dot dot) = LOW" and "pin_level l (send_dash dot) = LOW"
    by (simp_all add: send_dot_def send_dash_def)
  moreover have "pulses_closed (send_message dot message)"
    by (simp add: send_message_def pulses_closed_append pulses_closed_characters
        pulses_closed_single)
  moreover have
    "filter is_gpio (send_dot dot) = [GPIO_output LED_PIN HIGH, GPIO_output LED_PIN LOW]"
    "filter is_gpio (send_dash dot) = [GPIO_output LED_PIN HIGH, GPIO_output LED_PIN LOW]"
    by (simp_all add: send_dot_def send_dash_def)
  moreover have "pin_level l (take 1 (send_dot dot)) = HIGH"
    and "pin_level l (take 1 (send_dash dot)) = HIGH"
    by (simp_all add: send_dot_def send_dash_def)
  moreover have "pulses (send_dot dot) = [dot]" and "pulses (send_dash dot) = [3 * dot]"
    by (simp_all add: pulses_def timeline_def send_dot_def send_dash_def DASH_def)
  moreover have "is_letter_or_digit c \<longrightarrow>
      morse_of c \<noteq> [] \<and> pulses (send_character dot c) = map (pulse dot) (morse_of c)"
    using letter_code [of c] pulses_send_character [of c dot] by blast
  ultimately show ?thesis
    using start by (simp add: pin_level_send_character pin_level_send_message)
qed

theorem line_low_after_sending_witness:
  "(0::rat) < DOT
   \<and> pin_level HIGH setup_gpio = LOW
   \<and> filter is_gpio (send_dot DOT) = [GPIO_output 17 HIGH, GPIO_output 17 LOW]
   \<and> filter is_gpio (send_dash DOT) = [GPIO_output 17 HIGH, GPIO_output 17 LOW]
   \<and> pin_level LOW (take 1 (send_dot DOT)) = HIGH
   \<and> pin_level LOW (take 1 (send_dash DOT)) = HIGH
   \<and> pulses (send_dot DOT) = [1 / 10] \<and> pulses (send_dash DOT) = [3 / 10]
   \<and> pin_level HIGH (send_dot DOT) = LOW \<and> pin_level HIGH (send_dash DOT) = LOW
   \<and> is_letter_or_digit 75 \<and> morse_of 75 = str_lit ''-.-''
   \<and> pulses (send_character DOT 75) = [3 / 10, 1 / 10, 3 / 10]
   \<and> pin_level LOW (send_character DOT 75) = LOW
   \<and> pin_level LOW (send_message DOT (str_lit ''hello ESP32'')) = LOW
   \<and> pin_level HIGH (setup_gpio @ concat (replicate 4 (send_message DOT (str_lit ''hello ESP32'')))) = LOW
   \<and> pulses_closed (send_message DOT (str_lit ''hello ESP32''))"
proof -
  have h: "(0::rat) < DOT" by (simp add: DOT_def)
  have k: "is_letter_or_digit 75" "morse_of 75 = str_lit ''-.-''"
    by (simp_all add: is_letter_or_digit_def ord_values morse_of_def upper_def table)
  note fact = line_low_after_sending [OF h, of _ 75 "str_lit ''hello ESP32''" 4]
  from fact [of HIGH] fact [of LOW] k
  have "pulses (send_character DOT 75) = [3 / 10, 1 / 10, 3 / 10]"
    by (simp add: pulse_def str_lit_def ord_def DOT_def)
  with fact [of HIGH] fact [of LOW] h k show ?thesis
    by (simp add: LED_PIN_def DOT_def)
qed

section \<open>Characters without a code, and the case of letters\<close>

lemma send_character_upper:
  assumes "upper c = upper c'"
  shows "send_character dot c = send_character dot c'"
  using assms by (simp add: send_character_def)

lemma upper_unsupported:
  assumes "\<not> supported c" and "c \<noteq> 0x131" and "c \<noteq> 0x17F"
  shows "upper c = c"
  using assms by (auto simp: supported_def is_letter_or_digit_def upper_def ord_values)

lemma MORSE_CODE_unsupported:
  assumes "\<not> supported c"
  shows "MORSE_CODE c = None"
proof (cases "MORSE_CODE c")
  case None
  then show ?thesis .
next
  case (Some m)
  from MORSE_CODE_keys [OF Some] assms show ?thesis
    by (auto simp: supported_def is_letter_or_digit_def ord_values)
qed

text \<open>
  C4, as it holds. \<open>send_character\<close> does nothing at all, no call of the driver, no
  sleep, no output, for every character outside the supported set other than U+0131
  (dotless i) and U+017F (long s), and for no other character. These two are sent as
  their upper case: U+0131 has the very effects of \<open>I\<close>, printed as two dots and sent
  as two pulses of one unit, and U+017F the very effects of \<open>S\<close>, printed as three dots
  and sent as three pulses of one unit.
\<close>

theorem unsupported_skipped:
  assumes "0 < dot"
  shows "((\<not> supported c \<and> c \<noteq> 0x131 \<and> c \<noteq> 0x17F) = (send_character dot c = []))
         \<and> send_character dot 0x131 = send_character dot (ord CHR ''I'')
         \<and> stdout (send_character dot 0x131) = str_lit ''.. ''
         \<and> pulses (send_character dot 0x131) = [dot, dot]
         \<and> send_character dot 0x17F = send_character dot (ord CHR ''S'')
         \<and> stdout (send_character dot 0x17F) = str_lit ''... ''
         \<and> pulses (send_character dot 0x17F) = [dot, dot, dot]"
proof -
  have skip: "(\<not> supported c \<and> c \<noteq> 0x131 \<and> c \<noteq> 0x17F) = (send_character dot c = [])"
  proof (cases "supported c \<or> c = 0x131 \<or> c = 0x17F")
    case False
    then have "upper c = c" and "MORSE_CODE c = None" and "c \<noteq> 32"
      by (auto simp: upper_unsupported MORSE_CODE_unsupported supported_def ord_values)
    with False show ?thesis
      by (simp add: send_character_def ord_values)
  next
    case True
    then consider "c = 32" | "is_letter_or_digit c" | "c = 0x131" | "c = 0x17F"
      by (auto simp: supported_def ord_values)
    then have "send_character dot c \<noteq> []"
    proof cases
      case 1
      then show ?thesis by (simp add: send_character_space)
    next
      case 2
      then show ?thesis by (simp add: send_character_letter)
    next
      case 3
      then show ?thesis by (simp add: send_character_def upper_def table)
    next
      case 4
      then show ?thesis by (simp add: send_character_def upper_def table)
    qed
    with True show ?thesis by auto
  qed
  have "upper 0x131 = upper (ord CHR ''I'')"
    by (simp add: upper_def ord_values)
  then have dotless: "send_character dot 0x131 = send_character dot (ord CHR ''I'')"
    by (rule send_character_upper)
  have "upper 0x17F = upper (ord CHR ''S'')"
    by (simp add: upper_def ord_values)
  then have long: "send_character dot 0x17F = send_character dot (ord CHR ''S'')"
    by (rule send_character_upper)
  note same = dotless long
  have out: "stdout (send_character dot 0x131) = str_lit ''.. ''"
    "stdout (send_character dot 0x17F) = str_lit ''... ''"
    by (simp_all add: send_character_def upper_def table send_symbol_def
        send_dot_def send_dash_def)
  have sent: "pulses (send_character dot 0x131) = [dot, dot]"
    "pulses (send_character dot 0x17F) = [dot, dot, dot]"
    by (simp_all add: pulses_def timeline_def send_character_def upper_def table
        send_symbol_def send_dot_def send_dash_def LED_PIN_def)
  from skip same out sent show ?thesis by blast
qed

theorem unsupported_skipped_witness:
  "(0::rat) < DOT \<and> \<not> supported 33 \<and> send_character DOT 33 = []
   \<and> \<not> supported 233 \<and> send_character DOT 233 = []
   \<and> \<not> supported 0x17F \<and> send_character DOT 0x17F = send_character DOT (ord CHR ''S'')
   \<and> pulses (send_character DOT 0x17F) = [1 / 10, 1 / 10, 1 / 10]"
proof -
  have h: "(0::rat) < DOT" by (simp add: DOT_def)
  have u: "\<not> supported 33" "\<not> supported 233" "\<not> supported 0x17F"
    by (simp_all add: supported_def is_letter_or_digit_def ord_values)
  from unsupported_skipped [OF h, of 33] unsupported_skipped [OF h, of 233] h u
  show ?thesis by (simp add: DOT_def)
qed

text \<open>
  C4, as it is stated, fails at the two characters outside the supported set whose upper
  case is an ASCII letter: U+0131 is sent as \<open>I\<close>, two dots, and printed.
\<close>

theorem dotless_i_sent_counterexample:
  "\<not> supported 0x131
   \<and> send_character DOT 0x131 = send_character DOT (ord CHR ''I'')
   \<and> stdout (send_character DOT 0x131) = str_lit ''.. ''
   \<and> pulses (send_character DOT 0x131) = [1 / 10, 1 / 10]"
  by (simp add: supported_def is_letter_or_digit_def pulses_def timeline_def
      send_character_def upper_def table send_symbol_def send_dot_def send_dash_def
      LED_PIN_def DOT_def DASH_def SYMBOL_SPACE_def LETTER_SPACE_def)

text \<open>
  C5. On a supported character \<open>send_character\<close> performs the same effects for the
  character, for its lower case and for its upper case: the first step replaces the
  character by its upper case, and nothing later looks at the original.
\<close>

theorem case_insensitive:
  assumes "0 < dot" and "supported c"
  shows "send_character dot (lower c) = send_character dot c
         \<and> send_character dot (upper c) = send_character dot c"
proof -
  from assms(2) have "upper (lower c) = upper c" and "upper (upper c) = upper c"
    by (auto simp: supported_def is_letter_or_digit_def upper_def lower_def ord_values)
  then show ?thesis
    by (simp add: send_character_upper [of "lower c" c] send_character_upper [of "upper c" c])
qed

theorem case_insensitive_witness:
  "(0::rat) < DOT \<and> supported 72 \<and> lower 72 = 104
   \<and> send_character DOT 104 = send_character DOT 72
   \<and> stdout (send_character DOT 104) = str_lit ''.... ''"
proof -
  have h: "(0::rat) < DOT" "supported 72"
    by (simp_all add: DOT_def supported_def is_letter_or_digit_def ord_values)
  have l: "lower 72 = 104"
    by (simp add: lower_def ord_values)
  have "stdout (send_character DOT 72) = str_lit ''.... ''"
    by (simp add: send_character_def upper_def table send_symbol_def send_dot_def send_dash_def)
  with case_insensitive [OF h] h l show ?thesis by simp
qed

section \<open>The printed pattern\<close>

lemma stdout_append: "stdout (a @ b) = stdout a @ stdout b"
  by (induction a rule: stdout.induct) simp_all

lemma stdout_send_symbol: "stdout (send_symbol dot s) = []"
  by (simp add: send_symbol_def send_dot_def send_dash_def)

lemma stdout_symbols: "stdout (concat (map (send_symbol dot) m)) = []"
  by (induction m) (simp_all add: stdout_append stdout_send_symbol)

lemma send_character_cases:
  "send_character dot c = [Sleep (WORD_SPACE dot - LETTER_SPACE dot)]
   \<or> send_character dot c = []
   \<or> (\<exists>morse. morse \<noteq> [] \<and> set morse \<subseteq> {ord CHR ''.'', ord CHR ''-''}
         \<and> send_character dot c =
             Print (morse @ str_lit '' '') # concat (map (send_symbol dot) morse)
             @ [Sleep (LETTER_SPACE dot - SYMBOL_SPACE dot)])"
proof (cases "upper c = 32")
  case True
  then show ?thesis by (simp add: send_character_def ord_values)
next
  case space: False
  show ?thesis
  proof (cases "MORSE_CODE (upper c)")
    case None
    with space show ?thesis by (simp add: send_character_def ord_values)
  next
    case (Some m)
    from MORSE_CODE_Some [OF Some space] Some space show ?thesis
      by (simp add: send_character_def ord_values)
  qed
qed

lemma stdout_send_character:
  "set (stdout (send_character dot c)) \<subseteq> {ord CHR ''.'', ord CHR ''-'', ord CHR '' ''}"
  using send_character_cases [of dot c]
  by (auto simp: stdout_append stdout_symbols str_lit_def)

lemma stdout_characters:
  "set (stdout (concat (map (send_character dot) m)))
   \<subseteq> {ord CHR ''.'', ord CHR ''-'', ord CHR '' ''}"
proof (induction m)
  case Nil
  then show ?case by simp
next
  case (Cons c m)
  with stdout_send_character [of dot c] show ?case
    by (simp add: stdout_append)
qed

text \<open>
  C9. The entry \<open>'/'\<close> of the dictionary is never used: \<open>send_character\<close> either sleeps
  for the space, or does nothing, or prints and sends a non-empty code of dots and dashes
  only. What it prints holds only \<open>.\<close>, \<open>-\<close> and the separating space, and what
  \<open>send_message\<close> prints is that pattern and the line end of its final \<open>print()\<close>; no
  \<open>/\<close> is written.
\<close>

theorem slash_never_used:
  assumes "0 < dot"
  shows "(send_character dot c = [Sleep (WORD_SPACE dot - LETTER_SPACE dot)]
          \<or> send_character dot c = []
          \<or> (\<exists>morse. morse \<noteq> [] \<and> set morse \<subseteq> {ord CHR ''.'', ord CHR ''-''}
                \<and> send_character dot c =
                    Print (morse @ str_lit '' '') # concat (map (send_symbol dot) morse)
                    @ [Sleep (LETTER_SPACE dot - SYMBOL_SPACE dot)]))
         \<and> set (stdout (send_character dot c))
             \<subseteq> {ord CHR ''.'', ord CHR ''-'', ord CHR '' ''}
         \<and> stdout (send_message dot message) =
             stdout (concat (map (send_character dot) message)) @ [10]
         \<and> set (stdout (concat (map (send_character dot) message)))
             \<subseteq> {ord CHR ''.'', ord CHR ''-'', ord CHR '' ''}
         \<and> ord CHR ''/'' \<notin> set (stdout (send_message dot message))"
proof -
  have out: "stdout (send_message dot message) =
             stdout (concat (map (send_character dot) message)) @ [10]"
    by (simp add: send_message_def stdout_append)
  have "ord CHR ''/'' \<notin> set (stdout (concat (map (send_character dot) message)))"
    using stdout_characters [of dot message] by (auto simp: ord_values)
  with out have "ord CHR ''/'' \<notin> set (stdout (send_message dot message))"
    by (simp add: ord_values)
  with out send_character_cases [of dot c] stdout_send_character [of dot c]
    stdout_characters [of dot message]
  show ?thesis by blast
qed

theorem slash_never_used_witness:
  "(0::rat) < DOT
   \<and> send_character DOT (ord CHR '' '') = [Sleep (4 / 10)]
   \<and> stdout (send_message DOT (str_lit ''a/b c'')) = str_lit ''.- -... -.-. '' @ [10]
   \<and> ord CHR ''/'' \<notin> set (stdout (send_message DOT (str_lit ''a/b c'')))"
proof -
  have h: "(0::rat) < DOT" by (simp add: DOT_def)
  have a: "send_character DOT (ord CHR '' '') = [Sleep (4 / 10)]"
    by (simp add: send_character_def upper_def ord_values WORD_SPACE_def LETTER_SPACE_def DOT_def)
  have b: "stdout (send_message DOT (str_lit ''a/b c'')) = str_lit ''.- -... -.-. '' @ [10]"
    by (simp add: send_message_def send_character_def upper_def table send_symbol_def
        send_dot_def send_dash_def)
  from slash_never_used [OF h, of "ord CHR '' ''" "str_lit ''a/b c''"]
  have "ord CHR ''/'' \<notin> set (stdout (send_message DOT (str_lit ''a/b c'')))"
    by blast
  with h a b show ?thesis by blast
qed

section \<open>The program\<close>

lemma main_run:
  assumes "3 \<le> length argv" and "int_py (argv ! 1) = Some repetitions" and "1 \<le> repetitions"
  shows "main int_py dot argv intr =
         (0, [Print (str_lit ''Sending message '' @ [39] @ argv ! 2 @ [39] @ str_lit '' ''
                     @ str_int repetitions @ str_lit '' time(s)'' @ [10]),
              Print (str_lit ''Morse code pattern:'' @ [10])]
             @ interrupted intr (try_body dot repetitions (argv ! 2))
             @ cleanup_gpio)"
  using assms by (simp add: main_def Let_def)

lemma int_decimal_values:
  "int_decimal (str_lit ''3'') = Some 3" "int_decimal (str_lit ''0'') = Some 0"
  "int_decimal (str_lit ''-2'') = Some (- 2)"
  by (simp_all add: int_decimal_def str_lit_def ord_def)

text \<open>
  C6. When the first argument reads as an integer below one, whatever the message, the
  program prints the range error and exits with code 1; it makes no call of the GPIO
  driver, the test standing before \<open>setup_gpio\<close>.
\<close>

theorem repetitions_below_one_rejected:
  assumes "3 \<le> length argv" and "int_py (argv ! 1) = Some repetitions" and "repetitions < 1"
  shows "main int_py dot argv intr =
           (1, [Print (str_lit ''Error: Number of repetitions must be at least 1'' @ [10])])
         \<and> filter is_gpio (snd (main int_py dot argv intr)) = []"
  using assms by (simp add: main_def Let_def)

theorem repetitions_below_one_rejected_witness:
  "main int_decimal DOT [str_lit ''send.py'', str_lit ''0'', str_lit ''A''] None =
     (1, [Print (str_lit ''Error: Number of repetitions must be at least 1'' @ [10])])
   \<and> filter is_gpio (snd (main int_decimal DOT [str_lit ''send.py'', str_lit ''0'', str_lit ''A''] None)) = []
   \<and> main int_decimal DOT [str_lit ''send.py'', str_lit ''-2'', str_lit ''SOS''] (Some 0) =
     (1, [Print (str_lit ''Error: Number of repetitions must be at least 1'' @ [10])])"
proof -
  let ?zero = "[str_lit ''send.py'', str_lit ''0'', str_lit ''A'']"
  let ?minus = "[str_lit ''send.py'', str_lit ''-2'', str_lit ''SOS'']"
  have "(3::nat) \<le> length ?zero" and "int_decimal (?zero ! 1) = Some 0" and "(0::int) < 1"
    by (simp_all add: int_decimal_values)
  note zero = repetitions_below_one_rejected
    [where argv = ?zero and int_py = int_decimal and repetitions = 0
       and dot = DOT and intr = None, OF this]
  have "(3::nat) \<le> length ?minus" and "int_decimal (?minus ! 1) = Some (- 2)"
    and "(- 2::int) < 1"
    by (simp_all add: int_decimal_values)
  note minus = repetitions_below_one_rejected
    [where argv = ?minus and int_py = int_decimal and repetitions = "- 2"
       and dot = DOT and intr = "Some 0", OF this]
  from zero minus show ?thesis by blast
qed

text \<open>
  C7. A \<open>KeyboardInterrupt\<close> raised anywhere in the \<open>try\<close> block, after any number \<open>k\<close>
  of its effects: the program performs those \<open>k\<close> effects, prints the interruption
  notice, and runs \<open>cleanup_gpio\<close>; it returns, with exit code 0. From whatever level,
  the line ends low, and after the interruption the driver is asked to lower the pin
  exactly once.
\<close>

theorem interrupt_caught:
  assumes "0 < dot" and "3 \<le> length argv" and "int_py (argv ! 1) = Some repetitions"
    and "1 \<le> repetitions" and "k \<le> length (try_body dot repetitions (argv ! 2))"
  shows "\<exists>header. length header = 2 \<and> filter is_gpio header = []
           \<and> main int_py dot argv (Some k) =
               (0, header @ take k (try_body dot repetitions (argv ! 2))
                   @ [Print ([10] @ str_lit ''Transmission interrupted by user'' @ [10]),
                      GPIO_output LED_PIN LOW, GPIO_cleanup])
           \<and> pin_level l (snd (main int_py dot argv (Some k))) = LOW
           \<and> length (filter is_deassert
                (drop (length header + k) (snd (main int_py dot argv (Some k))))) = 1"
proof -
  let ?body = "try_body dot repetitions (argv ! 2)"
  let ?header =
    "[Print (str_lit ''Sending message '' @ [39] @ argv ! 2 @ [39] @ str_lit '' ''
             @ str_int repetitions @ str_lit '' time(s)'' @ [10]),
      Print (str_lit ''Morse code pattern:'' @ [10])]"
  let ?tail = "[Print ([10] @ str_lit ''Transmission interrupted by user'' @ [10]),
                GPIO_output LED_PIN LOW, GPIO_cleanup]"
  have run: "main int_py dot argv (Some k) = (0, ?header @ take k ?body @ ?tail)"
    using assms by (simp add: main_run interrupted_def cleanup_gpio_def)
  have "pin_level l (?header @ take k ?body @ ?tail) = LOW"
    by (simp add: pin_level_append)
  moreover from assms(5) have "length (take k ?body) = k"
    by simp
  then have "drop (length ?header + k) (?header @ take k ?body @ ?tail) = ?tail"
    by simp
  then have "length (filter is_deassert
      (drop (length ?header + k) (?header @ take k ?body @ ?tail))) = 1"
    by simp
  moreover have "length ?header = 2" and "filter is_gpio ?header = []"
    by simp_all
  ultimately show ?thesis
    using run by (intro exI [of _ ?header]) simp
qed

theorem interrupt_caught_witness:
  "(0::rat) < DOT
   \<and> main int_decimal DOT [str_lit ''send.py'', str_lit ''3'', str_lit ''SOS''] (Some 6) =
       (0, [Print (str_lit ''Sending message '' @ [39] @ str_lit ''SOS'' @ [39]
                   @ str_lit '' 3 time(s)'' @ [10]),
            Print (str_lit ''Morse code pattern:'' @ [10]),
            GPIO_setmode_BCM, GPIO_setwarnings False, GPIO_setup_OUT 17, GPIO_output 17 LOW,
            Print (str_lit ''... ''), GPIO_output 17 HIGH,
            Print ([10] @ str_lit ''Transmission interrupted by user'' @ [10]),
            GPIO_output 17 LOW, GPIO_cleanup])
   \<and> pin_level HIGH
       (snd (main int_decimal DOT [str_lit ''send.py'', str_lit ''3'', str_lit ''SOS''] (Some 6))) = LOW"
proof -
  let ?argv = "[str_lit ''send.py'', str_lit ''3'', str_lit ''SOS'']"
  have body: "take 6 (try_body DOT 3 (str_lit ''SOS'')) =
      [GPIO_setmode_BCM, GPIO_setwarnings False, GPIO_setup_OUT 17, GPIO_output 17 LOW,
       Print (str_lit ''... ''), GPIO_output 17 HIGH]"
    by (simp add: try_body_def setup_gpio_def send_message_def send_character_def upper_def
        table send_symbol_def send_dot_def send_dash_def LED_PIN_def numeral_3_eq_3)
  then have "length (take 6 (try_body DOT 3 (str_lit ''SOS''))) = 6"
    by simp
  then have h: "(0::rat) < DOT" "3 \<le> length ?argv" "int_decimal (?argv ! 1) = Some 3"
    "(1::int) \<le> 3" "6 \<le> length (try_body DOT 3 (?argv ! 2))"
    by (simp_all add: DOT_def int_decimal_values)
  from interrupt_caught
    [where dot = DOT and argv = ?argv and int_py = int_decimal and repetitions = 3
       and k = 6 and l = HIGH, OF h]
  obtain header where
    "main int_decimal DOT ?argv (Some 6) =
       (0, header @ take 6 (try_body DOT 3 (?argv ! 2))
           @ [Print ([10] @ str_lit ''Transmission interrupted by user'' @ [10]),
              GPIO_output LED_PIN LOW, GPIO_cleanup])"
    and low: "pin_level HIGH (snd (main int_decimal DOT ?argv (Some 6))) = LOW"
    by blast
  moreover have "main int_decimal DOT ?argv (Some 6) =
      (0, [Print (str_lit ''Sending message '' @ [39] @ str_lit ''SOS'' @ [39]
                   @ str_lit '' 3 time(s)'' @ [10]),
            Print (str_lit ''Morse code pattern:'' @ [10])]
          @ take 6 (try_body DOT 3 (str_lit ''SOS''))
          @ [Print ([10] @ str_lit ''Transmission interrupted by user'' @ [10]),
             GPIO_output 17 LOW, GPIO_cleanup])"
    using h by (simp add: main_run interrupted_def cleanup_gpio_def LED_PIN_def str_int_def
        str_lit_def ord_def)
  ultimately show ?thesis
    using h(1) body by simp
qed
lemmas sending = send_message_def send_character_def upper_def table send_symbol_def
  send_dot_def send_dash_def LED_PIN_def DOT_def DASH_def SYMBOL_SPACE_def LETTER_SPACE_def

lemma timeline_SOS:
  "timeline_from l (send_message DOT (str_lit ''SOS'') @ rest) =
   (case l of Off t \<Rightarrow> [(LOW, t)] | _ \<Rightarrow> [])
   @ (case l of On t \<Rightarrow> [(HIGH, t + 1/10)] | _ \<Rightarrow> [(HIGH, 1/10)])
   @ [(LOW, 1/10), (HIGH, 1/10), (LOW, 1/10), (HIGH, 1/10), (LOW, 3/10),
      (HIGH, 3/10), (LOW, 1/10), (HIGH, 3/10), (LOW, 1/10), (HIGH, 3/10), (LOW, 3/10),
      (HIGH, 1/10), (LOW, 1/10), (HIGH, 1/10), (LOW, 1/10), (HIGH, 1/10)]
   @ timeline_from (Off (3/10)) rest"
  by (cases l) (simp_all add: sending)

text \<open>
  C3, as it holds. With repetitions 3 and message \<open>SOS\<close> the program sets the pin up,
  sends the message three times, reports completion and cleans up. One repetition prints
  \<open>... --- ...\<close> and sends three dots, three dashes and three dots: 3 + 3 + 3 = 9 pulses.
  The run sends these nine pulses three times, 27 pulses in all, and a letter gap
  separates one repetition from the next.
\<close>

theorem sos_three_repetitions:
  assumes "int_py (str_lit ''3'') = Some 3"
  shows "\<exists>header. filter is_gpio header = []
           \<and> main int_py DOT [str_lit ''send.py'', str_lit ''3'', str_lit ''SOS''] None =
               (0, header @ setup_gpio
                   @ send_message DOT (str_lit ''SOS'') @ send_message DOT (str_lit ''SOS'')
                   @ send_message DOT (str_lit ''SOS'')
                   @ [Print (str_lit ''Transmission complete!'' @ [10])] @ cleanup_gpio)
           \<and> stdout (send_message DOT (str_lit ''SOS'')) = str_lit ''... --- ... '' @ [10]
           \<and> pulses (send_message DOT (str_lit ''SOS'')) =
               [DOT, DOT, DOT, DASH DOT, DASH DOT, DASH DOT, DOT, DOT, DOT]
           \<and> length (pulses (send_message DOT (str_lit ''SOS''))) = 3 + 3 + 3
           \<and> pulses (snd (main int_py DOT [str_lit ''send.py'', str_lit ''3'', str_lit ''SOS''] None)) =
               concat (replicate 3 (pulses (send_message DOT (str_lit ''SOS''))))
           \<and> length (pulses (snd (main int_py DOT
                [str_lit ''send.py'', str_lit ''3'', str_lit ''SOS''] None))) = 27
           \<and> silences (snd (main int_py DOT [str_lit ''send.py'', str_lit ''3'', str_lit ''SOS''] None)) =
               silences (send_message DOT (str_lit ''SOS'')) @ [LETTER_SPACE DOT]
               @ silences (send_message DOT (str_lit ''SOS'')) @ [LETTER_SPACE DOT]
               @ silences (send_message DOT (str_lit ''SOS''))"
proof -
  let ?argv = "[str_lit ''send.py'', str_lit ''3'', str_lit ''SOS'']"
  let ?sos = "send_message DOT (str_lit ''SOS'')"
  let ?header =
    "[Print (str_lit ''Sending message '' @ [39] @ str_lit ''SOS'' @ [39] @ str_lit '' ''
             @ str_int 3 @ str_lit '' time(s)'' @ [10]),
      Print (str_lit ''Morse code pattern:'' @ [10])]"
  let ?run = "?header @ setup_gpio @ ?sos @ ?sos @ ?sos
              @ [Print (str_lit ''Transmission complete!'' @ [10])] @ cleanup_gpio"
  have "(3::nat) \<le> length ?argv" and "int_py (?argv ! 1) = Some 3" and "(1::int) \<le> 3"
    using assms by simp_all
  from main_run [where argv = ?argv and int_py = int_py and repetitions = 3
      and dot = DOT and intr = None, OF this]
  have run: "main int_py DOT ?argv None = (0, ?run)"
    by (simp add: interrupted_def try_body_def numeral_3_eq_3)
  have one: "timeline ?sos =
      [(HIGH, 1/10), (LOW, 1/10), (HIGH, 1/10), (LOW, 1/10), (HIGH, 1/10), (LOW, 3/10),
       (HIGH, 3/10), (LOW, 1/10), (HIGH, 3/10), (LOW, 1/10), (HIGH, 3/10), (LOW, 3/10),
       (HIGH, 1/10), (LOW, 1/10), (HIGH, 1/10), (LOW, 1/10), (HIGH, 1/10)]"
    using timeline_SOS [of Idle "[]"] by (simp add: timeline_def)
  have all: "timeline ?run =
      timeline ?sos @ [(LOW, 3/10)] @ timeline ?sos @ [(LOW, 3/10)] @ timeline ?sos"
    unfolding one
    by (simp add: timeline_def setup_gpio_def cleanup_gpio_def LED_PIN_def timeline_SOS)
  have "stdout ?sos = str_lit ''... --- ... '' @ [10]"
    by (simp add: sending)
  moreover have "pulses ?sos = [DOT, DOT, DOT, DASH DOT, DASH DOT, DASH DOT, DOT, DOT, DOT]"
    unfolding pulses_def one by (simp add: DOT_def DASH_def)
  moreover have "pulses ?run = concat (replicate 3 (pulses ?sos))"
    unfolding pulses_def all by (simp add: numeral_3_eq_3)
  moreover have "length (pulses ?run) = 27"
    unfolding pulses_def all one by simp
  moreover have "silences ?run =
      silences ?sos @ [LETTER_SPACE DOT] @ silences ?sos @ [LETTER_SPACE DOT] @ silences ?sos"
    unfolding silences_def all by (simp add: LETTER_SPACE_def DOT_def)
  moreover have "filter is_gpio ?header = []"
    by simp
  ultimately show ?thesis
    using run by (intro exI [of _ ?header]) simp
qed

theorem sos_three_repetitions_witness:
  "int_decimal (str_lit ''3'') = Some 3
   \<and> length (pulses (snd (main int_decimal DOT
        [str_lit ''send.py'', str_lit ''3'', str_lit ''SOS''] None))) = 27
   \<and> pulses (send_message DOT (str_lit ''SOS'')) =
       [1/10, 1/10, 1/10, 3/10, 3/10, 3/10, 1/10, 1/10, 1/10]"
proof -
  have h: "int_decimal (str_lit ''3'') = Some 3"
    by (simp add: int_decimal_values)
  from sos_three_repetitions [where int_py = int_decimal, OF h] h show ?thesis
    by (auto simp: DOT_def DASH_def)
qed

text \<open>
  C3, as it is stated, gives 27 pulses to each repetition; one repetition of \<open>SOS\<close>
  has nine.
\<close>

theorem sos_pulses_per_repetition_counterexample:
  "length (pulses (send_message DOT (str_lit ''SOS''))) \<noteq> 27"
  by (simp add: pulses_def timeline_def sending)

end
